theory Spec2Isabelle
  imports Main
begin

section \<open>Python values, text and errors\<close>

text \<open>
  The functions of \<^verbatim>\<open>hello.py\<close> check the run-time type of their arguments with
  \<^verbatim>\<open>isinstance\<close>, so an argument is a Python value of any type. Text is a
  \<^typ>\<open>string\<close>; a character stands for the code point of the same number
  (U+0000 to U+00FF), which covers ASCII text.
\<close>

datatype pyval =
    NoneV
  | BoolV bool
  | IntV int
  | Str (str_of: string)
  | ListV (items_of: "pyval list")
  | TupleV "pyval list"

text \<open>\<^verbatim>\<open>isinstance(v, str)\<close> and \<^verbatim>\<open>isinstance(v, list)\<close>.\<close>

fun is_str :: "pyval \<Rightarrow> bool" where
  "is_str (Str s) = True"
| "is_str v = False"

fun is_list :: "pyval \<Rightarrow> bool" where
  "is_list (ListV xs) = True"
| "is_list v = False"

text \<open>The exceptions the module raises, with their messages, and the
  \<^verbatim>\<open>IndexError\<close> of an out-of-range subscript.\<close>

datatype error = TypeError string | ValueError string | IndexError

text \<open>\<^verbatim>\<open>str.isspace\<close> for one character: the code points 9 to 13, 28 to 32,
  133 and 160 are the whitespace of the range.\<close>

definition is_space :: "char \<Rightarrow> bool" where
  "is_space c =
     (let n = (of_char c :: nat)
      in (9 \<le> n \<and> n \<le> 13) \<or> (28 \<le> n \<and> n \<le> 32) \<or> n = 133 \<or> n = 160)"

text \<open>\<^verbatim>\<open>s.lstrip()\<close>, \<^verbatim>\<open>s.rstrip()\<close>, \<^verbatim>\<open>s.strip()\<close> and
  \<^verbatim>\<open>s.rstrip('!')\<close>.\<close>

definition lstrip :: "string \<Rightarrow> string" where
  "lstrip s = dropWhile is_space s"

definition rstrip :: "string \<Rightarrow> string" where
  "rstrip s = rev (dropWhile is_space (rev s))"

definition strip :: "string \<Rightarrow> string" where
  "strip s = rstrip (lstrip s)"

definition rstrip_chars :: "string \<Rightarrow> string \<Rightarrow> string" where
  "rstrip_chars chars s = rev (dropWhile (\<lambda>c. c \<in> set chars) (rev s))"

section \<open>The single greeting formatter\<close>

text \<open>\<^verbatim>\<open>greet(name, greeting)\<close>: the three checks in the order of the source, then
  the formatted message.\<close>

definition greet :: "pyval \<Rightarrow> pyval \<Rightarrow> error + string" where
  "greet name greeting =
     (if \<not> is_str name then Inl (TypeError ''Name must be a string'')
      else if \<not> is_str greeting then Inl (TypeError ''Greeting must be a string'')
      else if str_of name = [] \<or> strip (str_of name) = []
        then Inl (ValueError ''Name cannot be empty or whitespace only'')
      else Inr (str_of greeting @ '', '' @ strip (str_of name) @ ''!''))"

text \<open>\<^verbatim>\<open>greet(name)\<close>, the greeting left to its default \<^verbatim>\<open>"Hello"\<close>.\<close>

definition greet_default :: "pyval \<Rightarrow> error + string" where
  "greet_default name = greet name (Str ''Hello'')"

section \<open>The batch formatters\<close>

text \<open>The loop of \<^verbatim>\<open>greet_multiple\<close>: each message is appended to
  \<^verbatim>\<open>greetings\<close>; an exception of \<^verbatim>\<open>greet\<close> leaves the loop and the function.\<close>

fun greet_each :: "pyval list \<Rightarrow> pyval \<Rightarrow> string list \<Rightarrow> error + string list" where
  "greet_each [] greeting greetings = Inr greetings"
| "greet_each (name # names) greeting greetings =
     (case greet name greeting of
        Inl e \<Rightarrow> Inl e
      | Inr message \<Rightarrow> greet_each names greeting (greetings @ [message]))"

definition greet_multiple :: "pyval \<Rightarrow> pyval \<Rightarrow> error + string list" where
  "greet_multiple names greeting =
     (if \<not> is_list names then Inl (TypeError ''Names must be a list'')
      else if \<not> is_str greeting then Inl (TypeError ''Greeting must be a string'')
      else greet_each (items_of names) greeting [])"

text \<open>The loop of \<^verbatim>\<open>greet_multiple_safe\<close>, with its two accumulators. The
  \<^verbatim>\<open>except\<close> clause catches \<^verbatim>\<open>ValueError\<close> and \<^verbatim>\<open>TypeError\<close> only.\<close>

fun greet_each_safe ::
  "pyval list \<Rightarrow> pyval \<Rightarrow> string list \<Rightarrow> nat \<Rightarrow> error + string list \<times> nat" where
  "greet_each_safe [] greeting greetings skipped_count = Inr (greetings, skipped_count)"
| "greet_each_safe (name # names) greeting greetings skipped_count =
     (if is_str name \<and> strip (str_of name) \<noteq> [] then
        (case greet name greeting of
           Inr message \<Rightarrow> greet_each_safe names greeting (greetings @ [message]) skipped_count
         | Inl (TypeError msg) \<Rightarrow> greet_each_safe names greeting greetings (skipped_count + 1)
         | Inl (ValueError msg) \<Rightarrow> greet_each_safe names greeting greetings (skipped_count + 1)
         | Inl IndexError \<Rightarrow> Inl IndexError)
      else greet_each_safe names greeting greetings (skipped_count + 1))"

definition greet_multiple_safe :: "pyval \<Rightarrow> pyval \<Rightarrow> error + string list" where
  "greet_multiple_safe names greeting =
     (if \<not> is_list names then Inl (TypeError ''Names must be a list'')
      else if \<not> is_str greeting then Inl (TypeError ''Greeting must be a string'')
      else (case greet_each_safe (items_of names) greeting [] 0 of
              Inl e \<Rightarrow> Inl e
            | Inr (greetings, skipped_count) \<Rightarrow> Inr greetings))"

section \<open>The stateful greeter\<close>

record greeter =
  default_greeting :: string
  case_sensitive :: bool
  greeting_history :: "string list"

text \<open>\<^verbatim>\<open>Greeter.__init__\<close>: the new object, or the exception raised.\<close>

definition Greeter_init :: "pyval \<Rightarrow> bool \<Rightarrow> error + greeter" where
  "Greeter_init dg cs =
     (if \<not> is_str dg then Inl (TypeError ''Default greeting must be a string'')
      else if strip (str_of dg) = [] then Inl (ValueError ''Default greeting cannot be empty'')
      else Inr \<lparr>default_greeting = strip (str_of dg), case_sensitive = cs,
                greeting_history = []\<rparr>)"

text \<open>
  \<^verbatim>\<open>str.title()\<close>: a character that follows a cased character is replaced by its
  lower-case form, any other character by its title-case form. Which characters are
  cased, and what the two forms of a character are, is read from the case tables of
  Python's Unicode database. The tables are not part of the repository, so they are a
  parameter of the model. A form is a string, since it may be longer than one
  character.
\<close>

record case_tables =
  is_cased :: "char \<Rightarrow> bool"
  to_lower :: "char \<Rightarrow> string"
  to_title :: "char \<Rightarrow> string"

fun title_from :: "case_tables \<Rightarrow> bool \<Rightarrow> string \<Rightarrow> string" where
  "title_from T previous_is_cased [] = []"
| "title_from T previous_is_cased (c # cs) =
     (if previous_is_cased then to_lower T c else to_title T c) @
     title_from T (is_cased T c) cs"

definition title :: "case_tables \<Rightarrow> string \<Rightarrow> string" where
  "title T s = title_from T False s"

text \<open>\<^verbatim>\<open>Greeter.greet(name, greeting)\<close>: the result and the object afterwards. An
  omitted \<^verbatim>\<open>greeting\<close> is \<^verbatim>\<open>None\<close>. The first argument holds the case tables that
  \<^verbatim>\<open>name.title()\<close> reads.\<close>

definition Greeter_greet ::
  "case_tables \<Rightarrow> greeter \<Rightarrow> pyval \<Rightarrow> pyval \<Rightarrow> (error + string) \<times> greeter" where
  "Greeter_greet T self name greeting =
     (let greeting = (if greeting = NoneV then Str (default_greeting self) else greeting);
          name = (if \<not> case_sensitive self \<and> is_str name
                  then Str (title T (str_of name)) else name)
      in case greet name greeting of
           Inl e \<Rightarrow> (Inl e, self)
         | Inr message \<Rightarrow>
             (Inr message, self\<lparr>greeting_history := greeting_history self @ [message]\<rparr>))"

text \<open>\<^verbatim>\<open>Greeter.clear_history()\<close>.\<close>

definition clear_history :: "greeter \<Rightarrow> greeter" where
  "clear_history self = self\<lparr>greeting_history := []\<rparr>"

section \<open>Statistics\<close>

text \<open>Sequencing of computations that may raise.\<close>

definition bind_err :: "error + 'a \<Rightarrow> ('a \<Rightarrow> error + 'b) \<Rightarrow> error + 'b" where
  "bind_err r f = (case r of Inl e \<Rightarrow> Inl e | Inr x \<Rightarrow> f x)"

text \<open>A list comprehension whose element expression may raise: the first exception
  ends it.\<close>

fun map_err :: "('a \<Rightarrow> error + 'b) \<Rightarrow> 'a list \<Rightarrow> error + 'b list" where
  "map_err f [] = Inr []"
| "map_err f (x # xs) =
     bind_err (f x) (\<lambda>y. bind_err (map_err f xs) (\<lambda>ys. Inr (y # ys)))"

text \<open>\<^verbatim>\<open>xs[i]\<close> for an index \<^verbatim>\<open>i >= 0\<close>.\<close>

definition subscript :: "'a list \<Rightarrow> nat \<Rightarrow> error + 'a" where
  "subscript xs i = (if i < length xs then Inr (xs ! i) else Inl IndexError)"

text \<open>
  \<^verbatim>\<open>s.split(sep)\<close>: the pieces between the occurrences of \<^verbatim>\<open>sep\<close>, found from the
  left and not overlapping; \<^verbatim>\<open>piece\<close> collects the characters since the last
  separator. An empty separator raises.
\<close>

function split_from :: "string \<Rightarrow> string \<Rightarrow> string \<Rightarrow> string list" where
  "split_from sep piece [] = [piece]"
| "split_from sep piece (c # cs) =
     (if sep \<noteq> [] \<and> take (length sep) (c # cs) = sep
      then piece # split_from sep [] (drop (length sep) (c # cs))
      else split_from sep (piece @ [c]) cs)"
  by pat_completeness auto
termination
  by (relation "measure (\<lambda>(sep, piece, s). length s)") auto

definition split :: "string \<Rightarrow> string \<Rightarrow> error + string list" where
  "split sep s =
     (if sep = [] then Inl (ValueError ''empty separator'') else Inr (split_from sep [] s))"

text \<open>
  \<^verbatim>\<open>Counter(words)\<close>: a dictionary in insertion order, so an association list in
  the order in which the words first occur.
\<close>

fun counter_add :: "(string \<times> nat) list \<Rightarrow> string \<Rightarrow> (string \<times> nat) list" where
  "counter_add [] w = [(w, 1)]"
| "counter_add ((k, n) # kns) w =
     (if k = w then (k, n + 1) # kns else (k, n) # counter_add kns w)"

definition Counter :: "string list \<Rightarrow> (string \<times> nat) list" where
  "Counter ws = foldl counter_add [] ws"

text \<open>
  \<^verbatim>\<open>most_common(1)\<close> is \<^verbatim>\<open>max\<close> of the items by count, as a list of at most one
  item; \<^verbatim>\<open>max\<close> keeps the first of several greatest items.
\<close>

fun max_count :: "string \<times> nat \<Rightarrow> (string \<times> nat) list \<Rightarrow> string \<times> nat" where
  "max_count best [] = best"
| "max_count best (item # items) =
     max_count (if snd best < snd item then item else best) items"

definition most_common1 :: "(string \<times> nat) list \<Rightarrow> (string \<times> nat) list" where
  "most_common1 items = (case items of [] \<Rightarrow> [] | item # rest \<Rightarrow> [max_count item rest])"

record statistics =
  total_greetings :: nat
  unique_names :: nat
  most_common_greeting :: "string option"

text \<open>\<^verbatim>\<open>msg.split(',')[0]\<close> and \<^verbatim>\<open>msg.split(', ')[1].rstrip('!')\<close>.\<close>

definition greeting_word :: "string \<Rightarrow> error + string" where
  "greeting_word msg = bind_err (split '','' msg) (\<lambda>parts. subscript parts 0)"

definition name_part :: "string \<Rightarrow> error + string" where
  "name_part msg =
     bind_err (split '', '' msg) (\<lambda>parts.
     bind_err (subscript parts 1) (\<lambda>part. Inr (rstrip_chars ''!'' part)))"

text \<open>\<^verbatim>\<open>Greeter.get_statistics()\<close>.\<close>

definition get_statistics :: "greeter \<Rightarrow> error + statistics" where
  "get_statistics self =
     (let total = length (greeting_history self)
      in if total = 0
         then Inr \<lparr>total_greetings = 0, unique_names = 0, most_common_greeting = None\<rparr>
         else
           bind_err (map_err greeting_word (greeting_history self)) (\<lambda>greeting_words.
           bind_err (subscript (most_common1 (Counter greeting_words)) 0) (\<lambda>most_common.
           bind_err (map_err name_part (greeting_history self)) (\<lambda>names.
           Inr \<lparr>total_greetings = total, unique_names = card (set names),
                most_common_greeting = Some (fst most_common)\<rparr>))))"

section \<open>Valid names\<close>

text \<open>A valid name is text with at least one character that is not whitespace.\<close>

definition valid_name :: "pyval \<Rightarrow> bool" where
  "valid_name name = (is_str name \<and> (\<exists>c \<in> set (str_of name). \<not> is_space c))"

section \<open>The name of a message, as the specification words it\<close>

text \<open>
  In the words of the specification, the name of a stored message is the text
  between the first \<^verbatim>\<open>", "\<close> and the trailing \<^verbatim>\<open>"!"\<close>. This reading is
  compared below with \<open>name_part\<close>, which is what \<^verbatim>\<open>get_statistics\<close> computes.
\<close>

fun after_first :: "string \<Rightarrow> string \<Rightarrow> string" where
  "after_first sep [] = []"
| "after_first sep (c # cs) =
     (if take (length sep) (c # cs) = sep then drop (length sep) (c # cs)
      else after_first sep cs)"

definition spec_extract_name :: "string \<Rightarrow> string" where
  "spec_extract_name msg = butlast (after_first '', '' msg)"

section \<open>Order of first occurrence\<close>

text \<open>The distinct elements of a list, in the order in which they first occur.\<close>

definition firsts :: "'a list \<Rightarrow> 'a list" where
  "firsts ws = rev (remdups (rev ws))"

section \<open>Sequence types, as the specification words them\<close>


section \<open>What is used of the case tables\<close>

definition ascii_lowercase :: string where
  "ascii_lowercase = ''abcdefghijklmnopqrstuvwxyz''"

definition ascii_uppercase :: string where
  "ascii_uppercase = ''ABCDEFGHIJKLMNOPQRSTUVWXYZ''"

text \<open>
  The properties of Python's case tables that the proofs use. A whitespace character
  is uncased and is its own lower-case and title-case form. The forms of any other
  character hold a character that is not whitespace. An ASCII letter is cased, its
  lower-case form is the lower-case letter and its title-case form the upper-case
  letter.
\<close>

definition case_tables_wf :: "case_tables \<Rightarrow> bool" where
  "case_tables_wf T \<longleftrightarrow>
     (\<forall>c. is_space c \<longrightarrow> \<not> is_cased T c \<and> to_lower T c = [c] \<and> to_title T c = [c]) \<and>
     (\<forall>c. \<not> is_space c \<longrightarrow>
        (\<exists>d \<in> set (to_lower T c). \<not> is_space d) \<and> (\<exists>d \<in> set (to_title T c). \<not> is_space d)) \<and>
     list_all2
       (\<lambda>l u. is_cased T l \<and> is_cased T u \<and>
              to_lower T l = [l] \<and> to_title T l = [u] \<and>
              to_lower T u = [l] \<and> to_title T u = [u])
       ascii_lowercase ascii_uppercase"

section \<open>Case tables to compute with\<close>

text \<open>
  The case tables of the ASCII letters: a letter of \<open>ascii_lowercase\<close> or
  \<open>ascii_uppercase\<close> is cased and has the forms Python gives it, and every other
  character is left uncased and is its own form. These are Python's tables on ASCII
  text, and they are applied to ASCII names only.
\<close>

definition ascii_to_lower :: "char \<Rightarrow> char" where
  "ascii_to_lower c = (case map_of (zip ascii_uppercase ascii_lowercase) c of
                         Some l \<Rightarrow> l | None \<Rightarrow> c)"

definition ascii_to_title :: "char \<Rightarrow> char" where
  "ascii_to_title c = (case map_of (zip ascii_lowercase ascii_uppercase) c of
                         Some u \<Rightarrow> u | None \<Rightarrow> c)"

definition ascii_tables :: case_tables where
  "ascii_tables =
     \<lparr>is_cased = (\<lambda>c. c \<in> set ascii_lowercase \<or> c \<in> set ascii_uppercase),
      to_lower = (\<lambda>c. [ascii_to_lower c]),
      to_title = (\<lambda>c. [ascii_to_title c])\<rparr>"

section \<open>A greeter to compute with\<close>

text \<open>The object \<^verbatim>\<open>Greeter("Hi")\<close> of the class documentation.\<close>

definition hi_greeter :: greeter where
  "hi_greeter = \<lparr>default_greeting = ''Hi'', case_sensitive = True, greeting_history = []\<rparr>"

section \<open>Properties of trimming\<close>

lemma dropWhile_all_iff:
  "(\<forall>x \<in> set (dropWhile P xs). P x) \<longleftrightarrow> (\<forall>x \<in> set xs. P x)"
proof
  assume rest: "\<forall>x \<in> set (dropWhile P xs). P x"
  have "set xs = set (takeWhile P xs) \<union> set (dropWhile P xs)"
    by (metis set_append takeWhile_dropWhile_id)
  with rest show "\<forall>x \<in> set xs. P x"
    by (auto dest: set_takeWhileD)
next
  assume "\<forall>x \<in> set xs. P x"
  then show "\<forall>x \<in> set (dropWhile P xs). P x"
    by (auto dest: set_dropWhileD)
qed

lemma strip_empty_iff: "strip s = [] \<longleftrightarrow> (\<forall>c \<in> set s. is_space c)"
  by (simp add: strip_def rstrip_def lstrip_def dropWhile_all_iff)

lemmas strip_defs = strip_def lstrip_def rstrip_def is_space_def

section \<open>The single greeting formatter: results and errors\<close>

text \<open>
  Claim C1. For a text name \<open>n\<close> with at least one character that is not whitespace and
  a text greeting \<open>g\<close>, \<^verbatim>\<open>greet(n, g)\<close> returns \<open>g\<close>, then \<^verbatim>\<open>", "\<close>, then the
  trimmed name, then \<^verbatim>\<open>"!"\<close>: the greeting is used as it is, only the name is
  trimmed. With the greeting omitted the message starts with \<^verbatim>\<open>"Hello"\<close>.
\<close>

theorem greet_formats:
  "\<exists>c \<in> set n. \<not> is_space c \<Longrightarrow>
     greet (Str n) (Str g) = Inr (g @ '', '' @ strip n @ ''!'') \<and>
     greet_default (Str n) = Inr (''Hello, '' @ strip n @ ''!'')"
  by (auto simp: greet_def greet_default_def strip_empty_iff)

theorem greet_formats_witness:
  "(\<exists>c \<in> set ''  Bob  ''. \<not> is_space c) \<and>
   greet (Str ''  Bob  '') (Str '' Hi '') = Inr '' Hi , Bob!'' \<and>
   greet_default (Str ''  Bob  '') = Inr ''Hello, Bob!''"
proof -
  have h: "\<exists>c \<in> set ''  Bob  ''. \<not> is_space c"
    by (simp add: is_space_def)
  have s: "strip ''  Bob  '' = ''Bob''"
    by (simp add: strip_defs)
  from greet_formats [OF h, of "'' Hi ''"] h s show ?thesis
    by simp
qed

text \<open>
  Claim C2. \<^verbatim>\<open>greet\<close> raises \<^verbatim>\<open>TypeError\<close> exactly when the name or the greeting is
  not text; when both are text it raises \<^verbatim>\<open>ValueError\<close> exactly when the trimmed name
  is empty; it returns a message exactly in the remaining case, and raises nothing
  else.
\<close>

theorem greet_errors:
  "((\<exists>m. greet name greeting = Inl (TypeError m)) \<longleftrightarrow>
      \<not> is_str name \<or> \<not> is_str greeting) \<and>
   (is_str name \<and> is_str greeting \<longrightarrow>
      ((\<exists>m. greet name greeting = Inl (ValueError m)) \<longleftrightarrow> strip (str_of name) = [])) \<and>
   ((\<exists>message. greet name greeting = Inr message) \<longleftrightarrow>
      is_str name \<and> is_str greeting \<and> strip (str_of name) \<noteq> []) \<and>
   greet name greeting \<noteq> Inl IndexError"
  by (auto simp: greet_def strip_empty_iff)

theorem greet_errors_witness:
  "is_str (Str ''   '') \<and> is_str (Str ''Hi'') \<and> strip (str_of (Str ''   '')) = [] \<and>
   (\<exists>m. greet (Str ''   '') (Str ''Hi'') = Inl (ValueError m)) \<and>
   (\<exists>m. greet (IntV 123) (Str ''Hi'') = Inl (TypeError m)) \<and>
   (\<exists>m. greet (Str ''x'') (IntV 123) = Inl (TypeError m))"
proof -
  have s: "strip (str_of (Str ''   '')) = []"
    by (simp add: strip_defs)
  from greet_errors [of "Str ''   ''" "Str ''Hi''"] greet_errors [of "IntV 123" "Str ''Hi''"]
    greet_errors [of "Str ''x''" "IntV 123"] s
  show ?thesis by simp
qed

section \<open>The batch formatters: results and errors\<close>

lemma valid_name_strip: "valid_name name \<longleftrightarrow> is_str name \<and> strip (str_of name) \<noteq> []"
  by (auto simp: valid_name_def strip_empty_iff)

lemma greet_valid_name:
  "valid_name name \<Longrightarrow> greet name (Str g) = Inr (g @ '', '' @ strip (str_of name) @ ''!'')"
  by (auto simp: valid_name_def greet_def strip_empty_iff)

lemma greet_invalid_name:
  "\<not> valid_name name \<Longrightarrow>
     greet name (Str g) = Inl (TypeError ''Name must be a string'') \<or>
     greet name (Str g) = Inl (ValueError ''Name cannot be empty or whitespace only'')"
  by (auto simp: valid_name_def greet_def strip_empty_iff)

lemma greet_each_all_valid:
  "\<forall>name \<in> set names. valid_name name \<Longrightarrow>
     greet_each names (Str g) acc =
       Inr (acc @ map (\<lambda>name. g @ '', '' @ strip (str_of name) @ ''!'') names)"
  by (induction names arbitrary: acc) (simp_all add: greet_valid_name)

lemma greet_each_first_invalid:
  "\<forall>name \<in> set pre. valid_name name \<Longrightarrow> greet bad (Str g) = Inl e \<Longrightarrow>
     greet_each (pre @ bad # rest) (Str g) acc = Inl e"
  by (induction pre arbitrary: acc) (simp_all add: greet_valid_name)


text \<open>The loop of the tolerant formatter keeps the messages of the valid names and
  counts the other entries.\<close>

lemma greet_each_safe_filter:
  "greet_each_safe names (Str g) acc k =
     Inr (acc @ map (\<lambda>name. g @ '', '' @ strip (str_of name) @ ''!'') (filter valid_name names),
          k + length (filter (\<lambda>name. \<not> valid_name name) names))"
proof (induction names arbitrary: acc k)
  case Nil
  show ?case by simp
next
  case (Cons name names)
  show ?case
  proof (cases "valid_name name")
    case True
    then have test: "is_str name \<and> strip (str_of name) \<noteq> []"
      by (simp add: valid_name_strip)
    show ?thesis
      using greet_valid_name [OF True, of g] test True by (simp add: Cons.IH)
  next
    case False
    then have test: "\<not> (is_str name \<and> strip (str_of name) \<noteq> [])"
      by (simp add: valid_name_strip)
    show ?thesis
      using test False by (auto simp: Cons.IH)
  qed
qed

lemma valid_name_examples:
  "valid_name (Str ''Alice'')" "valid_name (Str ''Bob'')" "valid_name (Str ''Charlie'')"
  "\<not> valid_name (Str '''')" "\<not> valid_name (Str '' '')" "\<not> valid_name NoneV"
  "\<not> valid_name (IntV 123)"
  by (simp_all add: valid_name_def is_space_def)

text \<open>
  Claim C4. When every name of the list is valid, \<^verbatim>\<open>greet_multiple\<close> returns one
  message for each name, in the order of the names, each the result of \<^verbatim>\<open>greet\<close>
  on that name and the greeting; the empty list gives the empty list. When a name
  is invalid, the call raises the error \<^verbatim>\<open>greet\<close> raises on the first such name, and
  returns no list.
\<close>

theorem greet_multiple_strict:
  "((\<forall>name \<in> set names. valid_name name) \<longrightarrow>
      (\<exists>ms. greet_multiple (ListV names) (Str g) = Inr ms \<and>
            list_all2 (\<lambda>name m. greet name (Str g) = Inr m) names ms)) \<and>
   (names = pre @ bad # rest \<and> (\<forall>name \<in> set pre. valid_name name) \<and> \<not> valid_name bad \<longrightarrow>
      (\<exists>e. greet bad (Str g) = Inl e \<and> greet_multiple (ListV names) (Str g) = Inl e)) \<and>
   greet_multiple (ListV []) (Str g) = Inr []"
proof (intro conjI impI)
  assume ok: "\<forall>name \<in> set names. valid_name name"
  let ?ms = "map (\<lambda>name. g @ '', '' @ strip (str_of name) @ ''!'') names"
  have "greet_multiple (ListV names) (Str g) = Inr ?ms"
    using greet_each_all_valid [OF ok, of g "[]"] by (simp add: greet_multiple_def)
  moreover have "list_all2 (\<lambda>name m. greet name (Str g) = Inr m) names ?ms"
    using ok by (simp add: list_all2_conv_all_nth greet_valid_name)
  ultimately show "\<exists>ms. greet_multiple (ListV names) (Str g) = Inr ms \<and>
      list_all2 (\<lambda>name m. greet name (Str g) = Inr m) names ms"
    by blast
next
  assume h: "names = pre @ bad # rest \<and> (\<forall>name \<in> set pre. valid_name name) \<and> \<not> valid_name bad"
  then obtain e where e: "greet bad (Str g) = Inl e"
    using greet_invalid_name [of bad g] by blast
  have "greet_multiple (ListV names) (Str g) = Inl e"
    using h greet_each_first_invalid [of pre bad g e rest "[]"] e
    by (simp add: greet_multiple_def)
  with e show "\<exists>e. greet bad (Str g) = Inl e \<and> greet_multiple (ListV names) (Str g) = Inl e"
    by blast
next
  show "greet_multiple (ListV []) (Str g) = Inr []"
    by (simp add: greet_multiple_def)
qed

theorem greet_multiple_strict_witness:
  "valid_name (Str ''Alice'') \<and> valid_name (Str ''Bob'') \<and>
   greet_multiple (ListV [Str ''Alice'', Str ''Bob'']) (Str ''Hello'') =
     Inr [''Hello, Alice!'', ''Hello, Bob!''] \<and>
   \<not> valid_name (Str '''') \<and>
   greet_multiple (ListV ([Str ''Alice''] @ Str '''' # [NoneV])) (Str ''Hello'') =
     Inl (ValueError ''Name cannot be empty or whitespace only'')"
proof -
  have a: "greet (Str ''Alice'') (Str ''Hello'') = Inr ''Hello, Alice!''"
    and b: "greet (Str ''Bob'') (Str ''Hello'') = Inr ''Hello, Bob!''"
    and c: "greet (Str '''') (Str ''Hello'') =
      Inl (ValueError ''Name cannot be empty or whitespace only'')"
    by (simp_all add: greet_def strip_defs)
  from greet_multiple_strict [of "[Str ''Alice'', Str ''Bob'']" "''Hello''"]
  have "greet_multiple (ListV [Str ''Alice'', Str ''Bob'']) (Str ''Hello'') =
      Inr [''Hello, Alice!'', ''Hello, Bob!'']"
    by (auto simp: valid_name_examples list_all2_Cons1 a b)
  moreover
  from greet_multiple_strict [of "[Str ''Alice''] @ Str '''' # [NoneV]" "''Hello''"
      "[Str ''Alice'']" "Str ''''" "[NoneV]"]
  have "greet_multiple (ListV ([Str ''Alice''] @ Str '''' # [NoneV])) (Str ''Hello'') =
      Inl (ValueError ''Name cannot be empty or whitespace only'')"
    by (auto simp: valid_name_examples c)
  ultimately show ?thesis
    by (simp add: valid_name_examples)
qed






section \<open>Title case\<close>

lemma case_tables_wf_space:
  "case_tables_wf T \<Longrightarrow> is_space c \<Longrightarrow>
     \<not> is_cased T c \<and> to_lower T c = [c] \<and> to_title T c = [c]"
  by (simp add: case_tables_wf_def)

lemma case_tables_wf_other:
  "case_tables_wf T \<Longrightarrow> \<not> is_space c \<Longrightarrow>
     (\<exists>d \<in> set (to_lower T c). \<not> is_space d) \<and> (\<exists>d \<in> set (to_title T c). \<not> is_space d)"
  by (simp add: case_tables_wf_def)

text \<open>Title case leaves a text of whitespace as it is, and leaves a character that is
  not whitespace in any other text: it keeps a name valid or invalid.\<close>

lemma title_from_space_only:
  "case_tables_wf T \<Longrightarrow> \<forall>c \<in> set s. is_space c \<Longrightarrow> title_from T b s = s"
  by (induction s arbitrary: b) (simp_all add: case_tables_wf_space)

lemma title_from_keeps_other:
  "case_tables_wf T \<Longrightarrow> \<exists>c \<in> set s. \<not> is_space c \<Longrightarrow>
     \<exists>d \<in> set (title_from T b s). \<not> is_space d"
proof (induction s arbitrary: b)
  case Nil
  then show ?case by simp
next
  case (Cons c cs)
  show ?case
  proof (cases "is_space c")
    case True
    with Cons.prems have "\<exists>c \<in> set cs. \<not> is_space c"
      by simp
    from Cons.IH [OF Cons.prems(1) this, of "is_cased T c"] show ?thesis
      by auto
  next
    case False
    from case_tables_wf_other [OF Cons.prems(1) False] show ?thesis
      by auto
  qed
qed

lemma valid_name_title:
  assumes "case_tables_wf T"
  shows "valid_name (Str (title T n)) \<longleftrightarrow> valid_name (Str n)"
proof (cases "\<exists>c \<in> set n. \<not> is_space c")
  case True
  with title_from_keeps_other [OF assms True, of False] show ?thesis
    by (simp add: valid_name_def title_def)
next
  case False
  then have "\<forall>c \<in> set n. is_space c"
    by simp
  from title_from_space_only [OF assms this, of False] False show ?thesis
    by (simp add: valid_name_def title_def)
qed

text \<open>Two names in title case.\<close>

lemma title_examples:
  assumes "case_tables_wf T"
  shows "title T ''bob'' = ''Bob''" and "title T ''bOB smith'' = ''Bob Smith''"
proof -
  have "is_space (CHR '' '')"
    by (simp add: is_space_def)
  from case_tables_wf_space [OF assms this]
  have space: "\<not> is_cased T (CHR '' '')" "to_lower T (CHR '' '') = '' ''"
    by simp_all
  from assms have letters:
    "is_cased T (CHR ''b'')" "is_cased T (CHR ''o'')" "is_cased T (CHR ''B'')"
    "is_cased T (CHR ''O'')" "is_cased T (CHR ''s'')" "is_cased T (CHR ''m'')"
    "is_cased T (CHR ''i'')" "is_cased T (CHR ''t'')" "is_cased T (CHR ''h'')"
    "to_title T (CHR ''b'') = ''B''" "to_title T (CHR ''s'') = ''S''"
    "to_lower T (CHR ''o'') = ''o''" "to_lower T (CHR ''b'') = ''b''"
    "to_lower T (CHR ''O'') = ''o''" "to_lower T (CHR ''B'') = ''b''"
    "to_lower T (CHR ''m'') = ''m''" "to_lower T (CHR ''i'') = ''i''"
    "to_lower T (CHR ''t'') = ''t''" "to_lower T (CHR ''h'') = ''h''"
    by (simp_all add: case_tables_wf_def ascii_lowercase_def ascii_uppercase_def)
  show "title T ''bob'' = ''Bob''"
    by (simp add: title_def letters)
  show "title T ''bOB smith'' = ''Bob Smith''"
    by (simp add: title_def letters space)
qed

text \<open>The tables of the ASCII letters have the properties used.\<close>

lemma space_not_ascii_letter:
  "is_space c \<Longrightarrow> c \<notin> set ascii_lowercase \<and> c \<notin> set ascii_uppercase"
  by (auto simp: is_space_def ascii_lowercase_def ascii_uppercase_def)

lemma ascii_to_title_other: "c \<notin> set ascii_lowercase \<Longrightarrow> ascii_to_title c = c"
proof -
  assume "c \<notin> set ascii_lowercase"
  then have "map_of (zip ascii_lowercase ascii_uppercase) c = None"
    by (simp add: map_of_eq_None_iff ascii_lowercase_def ascii_uppercase_def)
  then show ?thesis by (simp add: ascii_to_title_def)
qed

lemma ascii_to_lower_other: "c \<notin> set ascii_uppercase \<Longrightarrow> ascii_to_lower c = c"
proof -
  assume "c \<notin> set ascii_uppercase"
  then have "map_of (zip ascii_uppercase ascii_lowercase) c = None"
    by (simp add: map_of_eq_None_iff ascii_lowercase_def ascii_uppercase_def)
  then show ?thesis by (simp add: ascii_to_lower_def)
qed

lemma is_space_ascii_to_title: "is_space (ascii_to_title c) = is_space c"
  by (auto simp: ascii_to_title_def is_space_def ascii_lowercase_def ascii_uppercase_def
      split: option.splits if_splits)

lemma is_space_ascii_to_lower: "is_space (ascii_to_lower c) = is_space c"
  by (auto simp: ascii_to_lower_def is_space_def ascii_lowercase_def ascii_uppercase_def
      split: option.splits if_splits)

lemma ascii_tables_wf: "case_tables_wf ascii_tables"
proof -
  have space: "\<not> is_cased ascii_tables c \<and> to_lower ascii_tables c = [c] \<and>
      to_title ascii_tables c = [c]" if "is_space c" for c
    using space_not_ascii_letter [OF that]
    by (simp add: ascii_tables_def ascii_to_title_other ascii_to_lower_other)
  have other: "(\<exists>d \<in> set (to_lower ascii_tables c). \<not> is_space d) \<and>
      (\<exists>d \<in> set (to_title ascii_tables c). \<not> is_space d)" if "\<not> is_space c" for c
    using that by (simp add: ascii_tables_def is_space_ascii_to_title is_space_ascii_to_lower)
  have letters: "list_all2
       (\<lambda>l u. is_cased ascii_tables l \<and> is_cased ascii_tables u \<and>
              to_lower ascii_tables l = [l] \<and> to_title ascii_tables l = [u] \<and>
              to_lower ascii_tables u = [l] \<and> to_title ascii_tables u = [u])
       ascii_lowercase ascii_uppercase"
    by (simp add: ascii_tables_def ascii_to_lower_def ascii_to_title_def
        ascii_lowercase_def ascii_uppercase_def)
  from space other letters show ?thesis
    unfolding case_tables_wf_def by blast
qed

section \<open>The stateful greeter: results, errors and history\<close>

text \<open>The result of \<^verbatim>\<open>Greeter.greet\<close> is the result of \<^verbatim>\<open>greet\<close> on the name, in
  title case where the object asks for it, and the greeting, the default one where
  none is given.\<close>

lemma Greeter_greet_fst:
  "fst (Greeter_greet T self name greeting) =
     greet (if \<not> case_sensitive self \<and> is_str name then Str (title T (str_of name)) else name)
           (if greeting = NoneV then Str (default_greeting self) else greeting)"
  by (simp add: Greeter_greet_def Let_def split: sum.splits)


lemma Greeter_greet_valid_titled:
  assumes "valid_name name" and "\<not> case_sensitive self" and "case_tables_wf T"
  shows "fst (Greeter_greet T self name (Str g)) =
    Inr (g @ '', '' @ strip (title T (str_of name)) @ ''!'')"
proof -
  from assms(1) obtain n where n: "name = Str n"
    by (cases name) (simp_all add: valid_name_def)
  with assms(1,3) have "valid_name (Str (title T n))"
    by (simp add: valid_name_title)
  from greet_valid_name [OF this, of g] assms(2) n show ?thesis
    by (simp add: Greeter_greet_fst)
qed



text \<open>
  Claim C9. When \<^verbatim>\<open>Greeter.greet\<close> raises, the object is as it was before the call;
  when it returns a message, that message is appended to the history and nothing
  else changes, so the history is one entry longer.
\<close>

theorem Greeter_greet_state:
  "(fst (Greeter_greet T self name greeting) = Inl e \<longrightarrow>
      snd (Greeter_greet T self name greeting) = self) \<and>
   (fst (Greeter_greet T self name greeting) = Inr message \<longrightarrow>
      snd (Greeter_greet T self name greeting) =
        self\<lparr>greeting_history := greeting_history self @ [message]\<rparr> \<and>
      length (greeting_history (snd (Greeter_greet T self name greeting))) =
        length (greeting_history self) + 1)"
  by (auto simp: Greeter_greet_def Let_def split: sum.splits)

theorem Greeter_greet_state_witness:
  "fst (Greeter_greet ascii_tables hi_greeter (Str '' '') NoneV) =
     Inl (ValueError ''Name cannot be empty or whitespace only'') \<and>
   snd (Greeter_greet ascii_tables hi_greeter (Str '' '') NoneV) = hi_greeter \<and>
   fst (Greeter_greet ascii_tables hi_greeter (Str ''World'') NoneV) = Inr ''Hi, World!'' \<and>
   greeting_history (snd (Greeter_greet ascii_tables hi_greeter (Str ''World'') NoneV)) =
     [''Hi, World!'']"
proof -
  have a: "fst (Greeter_greet ascii_tables hi_greeter (Str '' '') NoneV) =
      Inl (ValueError ''Name cannot be empty or whitespace only'')"
    and b: "fst (Greeter_greet ascii_tables hi_greeter (Str ''World'') NoneV) =
      Inr ''Hi, World!''"
    by (simp_all add: Greeter_greet_fst hi_greeter_def greet_def strip_defs)
  from Greeter_greet_state [of ascii_tables hi_greeter "Str '' ''" NoneV
      "ValueError ''Name cannot be empty or whitespace only''"]
    Greeter_greet_state [of ascii_tables hi_greeter "Str ''World''" NoneV _ "''Hi, World!''"] a b
  show ?thesis by (simp add: hi_greeter_def)
qed

text \<open>
  Claim C10. A greeting that is empty or all whitespace is accepted by \<^verbatim>\<open>greet\<close>,
  by both batch formatters and by \<^verbatim>\<open>Greeter.greet\<close>: for a valid name the message
  is the greeting as given, \<^verbatim>\<open>", "\<close>, the trimmed name and \<^verbatim>\<open>"!"\<close>. A greeter
  that is not case sensitive passes the greeting as given to \<^verbatim>\<open>greet\<close>, with the
  name in title case, which with the case tables of Python is a valid name again.
  The constructor of the greeter refuses such a default greeting with
  \<^verbatim>\<open>ValueError\<close>.
\<close>

theorem empty_greeting_accepted:
  "(strip g = [] \<and> valid_name name \<longrightarrow>
      greet name (Str g) = Inr (g @ '', '' @ strip (str_of name) @ ''!'') \<and>
      greet name (Str '''') = Inr ('', '' @ strip (str_of name) @ ''!'') \<and>
      greet_multiple (ListV [name]) (Str g) = Inr [g @ '', '' @ strip (str_of name) @ ''!''] \<and>
      greet_multiple_safe (ListV [name]) (Str g) =
        Inr [g @ '', '' @ strip (str_of name) @ ''!''] \<and>
      (case_sensitive self \<longrightarrow>
         fst (Greeter_greet T self name (Str g)) =
           Inr (g @ '', '' @ strip (str_of name) @ ''!'')) \<and>
      (\<not> case_sensitive self \<longrightarrow>
         fst (Greeter_greet T self name (Str g)) =
           greet (Str (title T (str_of name))) (Str g)) \<and>
      (\<not> case_sensitive self \<and> case_tables_wf T \<longrightarrow>
         fst (Greeter_greet T self name (Str g)) =
           Inr (g @ '', '' @ strip (title T (str_of name)) @ ''!''))) \<and>
   (strip g = [] \<longrightarrow>
      Greeter_init (Str g) cs = Inl (ValueError ''Default greeting cannot be empty''))"
proof (intro conjI impI)
  assume h: "strip g = [] \<and> valid_name name"
  then have v: "valid_name name" by simp
  show "greet name (Str g) = Inr (g @ '', '' @ strip (str_of name) @ ''!'')"
    using greet_valid_name [OF v] .
  show "greet name (Str '''') = Inr ('', '' @ strip (str_of name) @ ''!'')"
    using greet_valid_name [OF v, of "''''"] by simp
  show "greet_multiple (ListV [name]) (Str g) = Inr [g @ '', '' @ strip (str_of name) @ ''!'']"
    using greet_valid_name [OF v, of g] by (simp add: greet_multiple_def)
  show "greet_multiple_safe (ListV [name]) (Str g) =
      Inr [g @ '', '' @ strip (str_of name) @ ''!'']"
    using v by (simp add: greet_multiple_safe_def greet_each_safe_filter)
next
  assume h: "strip g = [] \<and> valid_name name" and cs: "case_sensitive self"
  then have v: "valid_name name" by simp
  from greet_valid_name [OF v, of g] cs
  show "fst (Greeter_greet T self name (Str g)) = Inr (g @ '', '' @ strip (str_of name) @ ''!'')"
    by (simp add: Greeter_greet_fst)
next
  assume h: "strip g = [] \<and> valid_name name" and ci: "\<not> case_sensitive self"
  then have "is_str name"
    by (simp add: valid_name_def)
  with ci show "fst (Greeter_greet T self name (Str g)) =
      greet (Str (title T (str_of name))) (Str g)"
    by (simp add: Greeter_greet_fst)
next
  assume h: "strip g = [] \<and> valid_name name" and t: "\<not> case_sensitive self \<and> case_tables_wf T"
  then show "fst (Greeter_greet T self name (Str g)) =
      Inr (g @ '', '' @ strip (title T (str_of name)) @ ''!'')"
    using Greeter_greet_valid_titled [of name self T g] by simp
next
  assume "strip g = []"
  then show "Greeter_init (Str g) cs = Inl (ValueError ''Default greeting cannot be empty'')"
    by (simp add: Greeter_init_def)
qed

theorem empty_greeting_accepted_witness:
  "strip ''  '' = [] \<and> valid_name (Str ''Bob'') \<and>
   greet (Str ''Bob'') (Str ''  '') = Inr ''  , Bob!'' \<and>
   greet (Str ''Bob'') (Str '''') = Inr '', Bob!'' \<and>
   case_sensitive hi_greeter \<and>
   fst (Greeter_greet ascii_tables hi_greeter (Str ''Bob'') (Str ''  '')) = Inr ''  , Bob!'' \<and>
   \<not> case_sensitive (hi_greeter\<lparr>case_sensitive := False\<rparr>) \<and> case_tables_wf ascii_tables \<and>
   fst (Greeter_greet ascii_tables (hi_greeter\<lparr>case_sensitive := False\<rparr>)
          (Str ''bob'') (Str '''')) = Inr '', Bob!'' \<and>
   Greeter_init (Str ''  '') True = Inl (ValueError ''Default greeting cannot be empty'')"
proof -
  let ?g = "hi_greeter\<lparr>case_sensitive := False\<rparr>"
  have s: "strip ''  '' = []" "strip '''' = []" and b: "strip ''Bob'' = ''Bob''"
    by (simp_all add: strip_defs)
  have cs: "case_sensitive hi_greeter" and ci: "\<not> case_sensitive ?g"
    by (simp_all add: hi_greeter_def)
  have v: "valid_name (Str ''Bob'')" "valid_name (Str ''bob'')"
    by (simp_all add: valid_name_def is_space_def)
  note wf = ascii_tables_wf
  have t: "title ascii_tables ''bob'' = ''Bob''"
    by (rule title_examples(1) [OF wf])
  have sensitive: "greet (Str ''Bob'') (Str ''  '') = Inr ''  , Bob!'' \<and>
      greet (Str ''Bob'') (Str '''') = Inr '', Bob!'' \<and>
      fst (Greeter_greet ascii_tables hi_greeter (Str ''Bob'') (Str ''  '')) = Inr ''  , Bob!'' \<and>
      Greeter_init (Str ''  '') True = Inl (ValueError ''Default greeting cannot be empty'')"
    using empty_greeting_accepted [of "''  ''" "Str ''Bob''" hi_greeter ascii_tables True]
      s v cs
    by (simp add: b)
  have "fst (Greeter_greet ascii_tables ?g (Str ''bob'') (Str '''')) =
      Inr ('''' @ '', '' @ strip (title ascii_tables (str_of (Str ''bob''))) @ ''!'')"
    using empty_greeting_accepted [of "''''" "Str ''bob''" ?g ascii_tables True]
      s v ci wf
    by blast
  then have titled:
    "fst (Greeter_greet ascii_tables ?g (Str ''bob'') (Str '''')) = Inr '', Bob!''"
    by (simp add: b t)
  from sensitive titled s v cs ci wf show ?thesis
    by simp
qed

section \<open>Clearing the history and the statistics\<close>

text \<open>
  Claim C8. \<^verbatim>\<open>clear_history\<close> leaves an empty history and the same default
  greeting and case-sensitivity flag; clearing twice is clearing once; the
  statistics of a cleared greeter are zero greetings, zero names and no most
  common greeting.
\<close>

theorem clear_history_resets:
  "greeting_history (clear_history self) = [] \<and>
   default_greeting (clear_history self) = default_greeting self \<and>
   case_sensitive (clear_history self) = case_sensitive self \<and>
   clear_history (clear_history self) = clear_history self \<and>
   get_statistics (clear_history self) =
     Inr \<lparr>total_greetings = 0, unique_names = 0, most_common_greeting = None\<rparr>"
  by (simp add: clear_history_def get_statistics_def)

theorem clear_history_resets_witness:
  "greeting_history (clear_history (hi_greeter\<lparr>greeting_history := [''Hi, World!'']\<rparr>)) = [] \<and>
   default_greeting (clear_history (hi_greeter\<lparr>greeting_history := [''Hi, World!'']\<rparr>)) = ''Hi'' \<and>
   get_statistics (clear_history (hi_greeter\<lparr>greeting_history := [''Hi, World!'']\<rparr>)) =
     Inr \<lparr>total_greetings = 0, unique_names = 0, most_common_greeting = None\<rparr>"
  using clear_history_resets [of "hi_greeter\<lparr>greeting_history := [''Hi, World!'']\<rparr>"]
  by (simp add: hi_greeter_def)

text \<open>
  Claim C3. The statistics of a non-empty history: the number of messages, the
  number of distinct names and the most common greeting word. After
  \<^verbatim>\<open>greet("Bob, A")\<close> and \<^verbatim>\<open>greet("Bob, B")\<close> on \<^verbatim>\<open>Greeter("Hi")\<close> the history
  holds two messages with two different names, which are the texts between the
  first \<^verbatim>\<open>", "\<close> and the trailing \<^verbatim>\<open>"!"\<close>; \<^verbatim>\<open>get_statistics\<close> reports one unique
  name, since \<^verbatim>\<open>split(', ')[1]\<close> ends the name at its own \<^verbatim>\<open>", "\<close>.
\<close>

theorem get_statistics_names_with_comma:
  "greeting_history
     (snd (Greeter_greet T (snd (Greeter_greet T hi_greeter (Str ''Bob, A'') NoneV))
             (Str ''Bob, B'') NoneV)) = [''Hi, Bob, A!'', ''Hi, Bob, B!''] \<and>
   get_statistics (hi_greeter\<lparr>greeting_history := [''Hi, Bob, A!'', ''Hi, Bob, B!'']\<rparr>) =
     Inr \<lparr>total_greetings = 2, unique_names = 1, most_common_greeting = Some ''Hi''\<rparr> \<and>
   map spec_extract_name [''Hi, Bob, A!'', ''Hi, Bob, B!''] = [''Bob, A'', ''Bob, B'']"
proof -
  have h: "greeting_history
     (snd (Greeter_greet T (snd (Greeter_greet T hi_greeter (Str ''Bob, A'') NoneV))
             (Str ''Bob, B'') NoneV)) = [''Hi, Bob, A!'', ''Hi, Bob, B!'']"
    by (simp add: Greeter_greet_def hi_greeter_def greet_def strip_defs)
  have w: "map_err greeting_word [''Hi, Bob, A!'', ''Hi, Bob, B!''] = Inr [''Hi'', ''Hi'']"
    by (simp add: greeting_word_def split_def bind_err_def subscript_def)
  have n: "map_err name_part [''Hi, Bob, A!'', ''Hi, Bob, B!''] = Inr [''Bob'', ''Bob'']"
    by (simp add: name_part_def split_def bind_err_def subscript_def rstrip_chars_def)
  have c: "most_common1 (Counter [''Hi'', ''Hi'']) = [(''Hi'', 2)]"
    by (simp add: most_common1_def Counter_def)
  have s: "get_statistics (hi_greeter\<lparr>greeting_history := [''Hi, Bob, A!'', ''Hi, Bob, B!'']\<rparr>) =
     Inr \<lparr>total_greetings = 2, unique_names = 1, most_common_greeting = Some ''Hi''\<rparr>"
    by (simp add: get_statistics_def w n c bind_err_def subscript_def del: map_err.simps)
  have e: "map spec_extract_name [''Hi, Bob, A!'', ''Hi, Bob, B!''] = [''Bob, A'', ''Bob, B'']"
    by (simp add: spec_extract_name_def)
  from h s e show ?thesis by simp
qed

text \<open>Of two greeting words with the same count, the one that occurs first in the
  history is reported.\<close>

lemma get_statistics_tie_example:
  "get_statistics
     (hi_greeter\<lparr>greeting_history := [''Yo, Al!'', ''Hi, Al!'', ''Hi, Al!'', ''Yo, Al!'']\<rparr>) =
     Inr \<lparr>total_greetings = 4, unique_names = 1, most_common_greeting = Some ''Yo''\<rparr>"
proof -
  have w: "map_err greeting_word [''Yo, Al!'', ''Hi, Al!'', ''Hi, Al!'', ''Yo, Al!''] =
      Inr [''Yo'', ''Hi'', ''Hi'', ''Yo'']"
    by (simp add: greeting_word_def split_def bind_err_def subscript_def)
  have n: "map_err name_part [''Yo, Al!'', ''Hi, Al!'', ''Hi, Al!'', ''Yo, Al!''] =
      Inr [''Al'', ''Al'', ''Al'', ''Al'']"
    by (simp add: name_part_def split_def bind_err_def subscript_def rstrip_chars_def)
  have c: "most_common1 (Counter [''Yo'', ''Hi'', ''Hi'', ''Yo'']) = [(''Yo'', 2)]"
    by (simp add: most_common1_def Counter_def)
  show ?thesis
    by (simp add: get_statistics_def w n c bind_err_def subscript_def del: map_err.simps)
qed

section \<open>Statistics of a history in general\<close>

text \<open>\<^verbatim>\<open>msg.split(',')[0]\<close> is the text before the first comma of the message, and
  never raises.\<close>

lemma split_from_comma:
  "\<exists>rest. split_from '','' piece s = (piece @ takeWhile (\<lambda>c. c \<noteq> CHR '','') s) # rest"
proof (induction s arbitrary: piece)
  case Nil
  show ?case by simp
next
  case (Cons c cs)
  show ?case
  proof (cases "c = CHR '',''")
    case True
    then show ?thesis by simp
  next
    case False
    with Cons [of "piece @ [c]"] show ?thesis by simp
  qed
qed

lemma greeting_word_takeWhile:
  "greeting_word msg = Inr (takeWhile (\<lambda>c. c \<noteq> CHR '','') msg)"
proof -
  from split_from_comma [of "[]" msg] obtain rest
    where "split_from '','' [] msg = takeWhile (\<lambda>c. c \<noteq> CHR '','') msg # rest"
    by auto
  then show ?thesis
    by (simp add: greeting_word_def split_def bind_err_def subscript_def)
qed

text \<open>\<^verbatim>\<open>Counter(words)\<close> holds the words in the order of their first occurrence,
  each with the number of its occurrences.\<close>

lemma firsts_snoc: "firsts (ws @ [w]) = (if w \<in> set ws then firsts ws else firsts ws @ [w])"
  by (simp add: firsts_def)

lemma set_firsts: "set (firsts ws) = set ws"
  by (simp add: firsts_def)

lemma counter_add_keys:
  "map fst (counter_add kns w) =
     (if w \<in> set (map fst kns) then map fst kns else map fst kns @ [w])"
proof (induction kns)
  case Nil
  show ?case by simp
next
  case (Cons kn kns)
  obtain k n where kn: "kn = (k, n)"
    by (cases kn)
  show ?case
  proof (cases "k = w")
    case True
    with kn show ?thesis by simp
  next
    case False
    with kn Cons show ?thesis by simp
  qed
qed

lemma counter_add_lookup:
  "map_of (counter_add kns w) v =
     (if v = w then Some (case map_of kns w of None \<Rightarrow> 1 | Some n \<Rightarrow> n + 1)
      else map_of kns v)"
  by (induction kns) auto

lemma Counter_snoc: "Counter (ws @ [w]) = counter_add (Counter ws) w"
  by (simp add: Counter_def)

lemma Counter_inv:
  "map fst (Counter ws) = firsts ws \<and>
   (\<forall>v. map_of (Counter ws) v = (if v \<in> set ws then Some (count_list ws v) else None))"
proof (induction ws rule: rev_induct)
  case Nil
  show ?case by (simp add: Counter_def firsts_def)
next
  case (snoc w ws)
  then have keys: "map fst (Counter ws) = firsts ws"
    and look: "\<And>v. map_of (Counter ws) v = (if v \<in> set ws then Some (count_list ws v) else None)"
    by simp_all
  show ?case
    by (simp add: Counter_snoc counter_add_keys counter_add_lookup keys firsts_snoc look
        set_firsts)
qed

lemma map_err_Inr:
  "(\<And>x. x \<in> set xs \<Longrightarrow> f x = Inr (g x)) \<Longrightarrow> map_err f xs = Inr (map g xs)"
  by (induction xs) (simp_all add: bind_err_def)

text \<open>\<^verbatim>\<open>max\<close> by count returns the first of the items with the greatest count.\<close>

lemma max_count_first:
  "\<exists>pre post. best # items = pre @ max_count best items # post \<and>
     (\<forall>x \<in> set pre. snd x < snd (max_count best items)) \<and>
     (\<forall>x \<in> set post. snd x \<le> snd (max_count best items))"
proof (induction items arbitrary: best)
  case Nil
  have "[best] = [] @ max_count best [] # []"
    by simp
  then show ?case
    by (metis empty_iff empty_set)
next
  case (Cons item items)
  show ?case
  proof (cases "snd best < snd item")
    case True
    let ?r = "max_count item items"
    from Cons [of item] obtain pre post
      where e: "item # items = pre @ ?r # post"
        and lt: "\<forall>x \<in> set pre. snd x < snd ?r"
        and le: "\<forall>x \<in> set post. snd x \<le> snd ?r"
      by blast
    have "snd item \<le> snd ?r"
    proof (cases pre)
      case Nil
      with e have "item = ?r" by (metis append_Nil list.inject)
      then show ?thesis by (metis order_refl)
    next
      case (Cons p ps)
      with e have "item \<in> set pre" by simp
      with lt show ?thesis by auto
    qed
    with True have b: "snd best < snd ?r" by simp
    have "best # item # items = (best # pre) @ ?r # post"
      using e by simp
    moreover have "\<forall>x \<in> set (best # pre). snd x < snd ?r"
      using b lt by simp
    moreover have "max_count best (item # items) = ?r"
      using True by simp
    ultimately show ?thesis
      using le by metis
  next
    case False
    let ?r = "max_count best items"
    have r: "max_count best (item # items) = ?r"
      using False by simp
    from Cons [of best] obtain pre post
      where e: "best # items = pre @ ?r # post"
        and lt: "\<forall>x \<in> set pre. snd x < snd ?r"
        and le: "\<forall>x \<in> set post. snd x \<le> snd ?r"
      by blast
    show ?thesis
    proof (cases pre)
      case Nil
      with e have "?r = best" and "items = post"
        by (metis append_Nil list.inject)+
      then have "best # item # items = [] @ ?r # (item # post)"
        and "\<forall>x \<in> set (item # post). snd x \<le> snd ?r"
        using False le by auto
      then show ?thesis
        unfolding r by (metis empty_iff empty_set)
    next
      case (Cons p ps)
      with e have p: "p = best" and items: "items = ps @ ?r # post"
        by (metis append_Cons list.inject)+
      from Cons p lt have b: "snd best < snd ?r" by simp
      with False have "snd item < snd ?r" by simp
      with lt Cons p have "\<forall>x \<in> set (best # item # ps). snd x < snd ?r"
        by simp
      moreover have "best # item # items = (best # item # ps) @ ?r # post"
        using items by simp
      ultimately show ?thesis
        unfolding r using le by metis
    qed
  qed
qed

text \<open>The most common greeting word of a non-empty list of words: a word of the list
  that no word outnumbers, and that occurs before every other word with as many
  occurrences.\<close>

lemma most_common1_Counter:
  assumes "ws \<noteq> []"
  shows "\<exists>w pre post. most_common1 (Counter ws) = [(w, count_list ws w)] \<and>
     w \<in> set ws \<and> (\<forall>v. count_list ws v \<le> count_list ws w) \<and>
     firsts ws = pre @ w # post \<and> (\<forall>v \<in> set pre. count_list ws v < count_list ws w)"
proof -
  from Counter_inv [of ws]
  have keys: "map fst (Counter ws) = firsts ws"
    and look: "\<And>v. map_of (Counter ws) v = (if v \<in> set ws then Some (count_list ws v) else None)"
    by simp_all
  have d: "distinct (map fst (Counter ws))"
    by (simp add: keys firsts_def)
  have cnt: "n = count_list ws k \<and> k \<in> set ws" if "(k, n) \<in> set (Counter ws)" for k n
  proof -
    from that d have "map_of (Counter ws) k = Some n" by simp
    with look [of k] show ?thesis by (simp split: if_splits)
  qed
  from assms have "firsts ws \<noteq> []"
    by (simp add: firsts_def)
  with keys obtain item rest where c: "Counter ws = item # rest"
    by (cases "Counter ws") auto
  let ?r = "max_count item rest"
  from max_count_first [of item rest] c obtain pre post
    where e: "Counter ws = pre @ ?r # post"
      and lt: "\<forall>x \<in> set pre. snd x < snd ?r"
      and le: "\<forall>x \<in> set post. snd x \<le> snd ?r"
    by auto
  obtain w n where r: "?r = (w, n)"
    by (cases ?r)
  have "(w, n) \<in> set (Counter ws)"
    using e r by simp
  from cnt [OF this] have n: "n = count_list ws w" and w: "w \<in> set ws"
    by simp_all
  have all: "snd x \<le> n" if "x \<in> set (Counter ws)" for x
    using that e r lt le by auto
  have most: "count_list ws v \<le> count_list ws w" for v
  proof (cases "v \<in> set ws")
    case True
    with look [of v] have "map_of (Counter ws) v = Some (count_list ws v)" by simp
    then have "(v, count_list ws v) \<in> set (Counter ws)"
      by (rule map_of_SomeD)
    from all [OF this] n show ?thesis by simp
  next
    case False
    then show ?thesis by simp
  qed
  have f: "firsts ws = map fst pre @ w # map fst post"
    using keys e r by (metis fst_conv list.simps(9) map_append)
  have before: "\<forall>v \<in> set (map fst pre). count_list ws v < count_list ws w"
  proof
    fix v assume "v \<in> set (map fst pre)"
    then obtain m where m: "(v, m) \<in> set pre" by auto
    with e have "(v, m) \<in> set (Counter ws)" by simp
    from cnt [OF this] have "m = count_list ws v" by simp
    with lt m r n show "count_list ws v < count_list ws w" by auto
  qed
  have "most_common1 (Counter ws) = [(w, count_list ws w)]"
    using c r n by (simp add: most_common1_def)
  with w most f before show ?thesis by blast
qed

text \<open>
  For every non-empty history on which \<^verbatim>\<open>get_statistics\<close> returns: the total is the
  length of the history, and the most common greeting is a text before the first
  comma that no other outnumbers and that occurs before every other one with as
  many occurrences.
\<close>

lemma get_statistics_total_and_most_common:
  assumes "greeting_history self \<noteq> []" and "get_statistics self = Inr st"
  shows "total_greetings st = length (greeting_history self) \<and>
    (\<exists>w pre post.
       most_common_greeting st = Some w \<and>
       w \<in> set (map (takeWhile (\<lambda>c. c \<noteq> CHR '','')) (greeting_history self)) \<and>
       (\<forall>v. count_list (map (takeWhile (\<lambda>c. c \<noteq> CHR '','')) (greeting_history self)) v
            \<le> count_list (map (takeWhile (\<lambda>c. c \<noteq> CHR '','')) (greeting_history self)) w) \<and>
       firsts (map (takeWhile (\<lambda>c. c \<noteq> CHR '','')) (greeting_history self)) = pre @ w # post \<and>
       (\<forall>v \<in> set pre.
          count_list (map (takeWhile (\<lambda>c. c \<noteq> CHR '','')) (greeting_history self)) v
            < count_list (map (takeWhile (\<lambda>c. c \<noteq> CHR '','')) (greeting_history self)) w))"
proof -
  let ?ws = "map (takeWhile (\<lambda>c. c \<noteq> CHR '','')) (greeting_history self)"
  have words: "map_err greeting_word (greeting_history self) = Inr ?ws"
    by (rule map_err_Inr) (rule greeting_word_takeWhile)
  from assms(1) have "?ws \<noteq> []" by simp
  from most_common1_Counter [OF this] obtain w pre post
    where m: "most_common1 (Counter ?ws) = [(w, count_list ?ws w)]"
      and rest: "w \<in> set ?ws" "\<forall>v. count_list ?ws v \<le> count_list ?ws w"
        "firsts ?ws = pre @ w # post" "\<forall>v \<in> set pre. count_list ?ws v < count_list ?ws w"
    by blast
  from assms have "total_greetings st = length (greeting_history self) \<and>
      most_common_greeting st = Some w"
    by (auto simp: get_statistics_def Let_def words m bind_err_def subscript_def
        split: sum.splits simp del: map_err.simps)
  with rest show ?thesis by blast
qed

text \<open>Messages whose greeting and name hold no comma, and whose name does not end in
  an exclamation mark: there the name of the code and the name of the specification
  are both the name that was greeted.\<close>

lemma split_from_no_comma:
  "CHR '','' \<notin> set s \<Longrightarrow> split_from '', '' piece s = [piece @ s]"
  by (induction s arbitrary: piece) auto

lemma split_from_first_separator:
  "CHR '','' \<notin> set g \<Longrightarrow>
     split_from '', '' piece (g @ '', '' @ rest) = (piece @ g) # split_from '', '' [] rest"
  by (induction g arbitrary: piece) auto

lemma after_first_separator:
  "CHR '','' \<notin> set g \<Longrightarrow> after_first '', '' (g @ '', '' @ rest) = rest"
  by (induction g) auto

lemma rstrip_chars_mark:
  "n = [] \<or> last n \<noteq> CHR ''!'' \<Longrightarrow> rstrip_chars ''!'' (n @ ''!'') = n"
proof (cases n rule: rev_cases)
  case Nil
  then show ?thesis by (simp add: rstrip_chars_def)
next
  case (snoc ns c)
  assume "n = [] \<or> last n \<noteq> CHR ''!''"
  with snoc have "c \<noteq> CHR ''!''" by simp
  with snoc show ?thesis by (simp add: rstrip_chars_def)
qed

lemma name_part_plain:
  assumes "CHR '','' \<notin> set g" and "CHR '','' \<notin> set n" and "n = [] \<or> last n \<noteq> CHR ''!''"
  shows "name_part (g @ '', '' @ n @ ''!'') = Inr n"
proof -
  from assms(2) have "CHR '','' \<notin> set (n @ ''!'')" by simp
  then have "split_from '', '' [] (n @ ''!'') = [n @ ''!'']"
    using split_from_no_comma [of "n @ ''!''" "[]"] by simp
  with split_from_first_separator [OF assms(1), of "[]" "n @ ''!''"]
  have "split_from '', '' [] (g @ '', '' @ n @ ''!'') = [g, n @ ''!'']"
    by simp
  then show ?thesis
    using rstrip_chars_mark [OF assms(3)]
    by (simp add: name_part_def split_def bind_err_def subscript_def)
qed

lemma spec_extract_name_plain:
  "CHR '','' \<notin> set g \<Longrightarrow> spec_extract_name (g @ '', '' @ n @ ''!'') = n"
  using after_first_separator [of g "n @ ''!''"]
  by (simp add: spec_extract_name_def butlast_append)

text \<open>On such a history \<^verbatim>\<open>get_statistics\<close> returns, and the number of unique names
  is the number of distinct names greeted.\<close>

lemma get_statistics_plain_names:
  assumes "greeting_history self = map (\<lambda>(g, n). g @ '', '' @ n @ ''!'') pairs"
    and "pairs \<noteq> []"
    and "\<forall>(g, n) \<in> set pairs.
           CHR '','' \<notin> set g \<and> CHR '','' \<notin> set n \<and> (n = [] \<or> last n \<noteq> CHR ''!'')"
  shows "\<exists>st. get_statistics self = Inr st \<and>
           total_greetings st = length pairs \<and>
           unique_names st = card (set (map snd pairs)) \<and>
           map spec_extract_name (greeting_history self) = map snd pairs"
proof -
  let ?msg = "\<lambda>(g, n). g @ '', '' @ n @ ''!''"
  have plain: "name_part (?msg p) = Inr (snd p) \<and> spec_extract_name (?msg p) = snd p"
    if "p \<in> set pairs" for p
  proof -
    obtain g n where p: "p = (g, n)"
      by (cases p)
    with that assms(3) have "CHR '','' \<notin> set g" "CHR '','' \<notin> set n"
      "n = [] \<or> last n \<noteq> CHR ''!''"
      by auto
    then show ?thesis
      using name_part_plain [of g n] spec_extract_name_plain [of g n] by (simp add: p)
  qed
  then have "map_err (name_part \<circ> ?msg) pairs = Inr (map snd pairs)"
    by (intro map_err_Inr) simp
  moreover have "map_err f (map h xs) = map_err (f \<circ> h) xs" for f :: "string \<Rightarrow> error + string"
      and h :: "string \<times> string \<Rightarrow> string" and xs
    by (induction xs) simp_all
  ultimately have names: "map_err name_part (greeting_history self) = Inr (map snd pairs)"
    by (simp add: assms(1))
  have words: "map_err greeting_word (greeting_history self) =
      Inr (map (takeWhile (\<lambda>c. c \<noteq> CHR '','')) (greeting_history self))"
    by (rule map_err_Inr) (rule greeting_word_takeWhile)
  from assms(1,2) have ne: "map (takeWhile (\<lambda>c. c \<noteq> CHR '','')) (greeting_history self) \<noteq> []"
    by simp
  from most_common1_Counter [OF ne] obtain w k
    where m: "most_common1 (Counter (map (takeWhile (\<lambda>c. c \<noteq> CHR '','')) (greeting_history self))) =
      [(w, k)]"
    by blast
  have len: "length (greeting_history self) = length pairs"
    by (simp add: assms(1))
  have stats: "get_statistics self =
      Inr \<lparr>total_greetings = length pairs, unique_names = card (set (map snd pairs)),
           most_common_greeting = Some w\<rparr>"
    using assms(2) len
    by (simp add: get_statistics_def Let_def words names m bind_err_def subscript_def
        del: map_err.simps)
  have "map spec_extract_name (greeting_history self) = map snd pairs"
    using plain by (simp add: assms(1))
  with stats show ?thesis by simp
qed

end
